theory Spec2Isabelle
  imports Main
begin

section \<open>The UID dictionary generator (generate\_uid\_dict.py)\<close>

text \<open>
  The script reads a parsed DocBook document, finds the table captioned
  \<^verbatim>\<open>UID Values\<close>, turns every body row into a dict of five named fields,
  normalises two of the fields and writes the records as a Python dict literal.
  The model follows Python 3: a \<^verbatim>\<open>str\<close> is a sequence of Unicode code points,
  every \<^verbatim>\<open>raise\<close> is an \<open>Inl\<close> value, and what the script writes to the
  output file is passed along explicitly.
\<close>

subsection \<open>Python strings\<close>

type_synonym pystr = "nat list"

abbreviation lit :: "string \<Rightarrow> pystr" where
  "lit s \<equiv> map of_char s"

datatype error = IndexError | KeyError | AttributeError | TypeError | ValueError

definition ebind :: "error + 'a \<Rightarrow> ('a \<Rightarrow> error + 'b) \<Rightarrow> error + 'b" where
  "ebind r f = (case r of Inl e \<Rightarrow> Inl e | Inr x \<Rightarrow> f x)"

text \<open>
  \<^verbatim>\<open>str.isspace\<close> for one code point: the characters CPython's
  \<^verbatim>\<open>str.strip()\<close> removes. U+200B (zero width space) is not among them.
\<close>

definition isspace :: "nat \<Rightarrow> bool" where
  "isspace c =
     ((0x09 \<le> c \<and> c \<le> 0x0D) \<or> (0x1C \<le> c \<and> c \<le> 0x20) \<or> c = 0x85 \<or> c = 0xA0 \<or>
      c = 0x1680 \<or> (0x2000 \<le> c \<and> c \<le> 0x200A) \<or> c = 0x2028 \<or> c = 0x2029 \<or>
      c = 0x202F \<or> c = 0x205F \<or> c = 0x3000)"

text \<open>\<^verbatim>\<open>s.strip()\<close>\<close>

definition strip :: "pystr \<Rightarrow> pystr" where
  "strip s = rev (dropWhile isspace (rev (dropWhile isspace s)))"

text \<open>\<^verbatim>\<open>sub in s\<close>: \<open>sub\<close> occurs in \<open>s\<close> as a contiguous substring.\<close>

fun contains :: "pystr \<Rightarrow> pystr \<Rightarrow> bool" where
  "contains sub [] = (sub = [])"
| "contains sub (c # s) = (take (length sub) (c # s) = sub \<or> contains sub s)"

text \<open>
  \<^verbatim>\<open>s.replace(old, new)\<close>: every non-overlapping occurrence of \<open>old\<close>, found
  scanning from the left, is replaced. With an empty \<open>old\<close> Python puts
  \<open>new\<close> before every character and at the end.
\<close>

function replace :: "pystr \<Rightarrow> pystr \<Rightarrow> pystr \<Rightarrow> pystr" where
  "replace old new [] = (if old = [] then new else [])"
| "replace old new (c # s) =
     (if old = [] then new @ c # replace old new s
      else if take (length old) (c # s) = old
        then new @ replace old new (drop (length old) (c # s))
      else c # replace old new s)"
  by pat_completeness auto
termination
  by (relation "measure (\<lambda>(old, new, s). length s)") auto

text \<open>
  \<^verbatim>\<open>s.split(sep)\<close>: \<open>ValueError\<close> for an empty separator; otherwise the
  pieces between the non-overlapping occurrences of \<open>sep\<close>, found scanning from
  the left. \<open>cur\<close> holds, reversed, the characters of the piece being read.
\<close>

function split_from :: "pystr \<Rightarrow> pystr \<Rightarrow> pystr \<Rightarrow> pystr list" where
  "split_from sep cur [] = [rev cur]"
| "split_from sep cur (c # s) =
     (if sep \<noteq> [] \<and> take (length sep) (c # s) = sep
        then rev cur # split_from sep [] (drop (length sep) (c # s))
      else split_from sep (c # cur) s)"
  by pat_completeness auto
termination
  by (relation "measure (\<lambda>(sep, cur, s). length s)") auto

definition split :: "pystr \<Rightarrow> pystr \<Rightarrow> error + pystr list" where
  "split sep s = (if sep = [] then Inl ValueError else Inr (split_from sep [] s))"

text \<open>\<^verbatim>\<open>sep.join(xs)\<close>\<close>

fun join :: "pystr \<Rightarrow> pystr list \<Rightarrow> pystr" where
  "join sep [] = []"
| "join sep [x] = x"
| "join sep (x # y # ys) = x @ sep @ join sep (y # ys)"

subsection \<open>Python lists and dicts\<close>

text \<open>
  \<^verbatim>\<open>xs[i]\<close> and \<^verbatim>\<open>xs[i] = v\<close>: a negative index counts from the end, an
  index out of range raises \<open>IndexError\<close>.
\<close>

definition getitem :: "'a list \<Rightarrow> int \<Rightarrow> error + 'a" where
  "getitem xs i =
     (let j = (if i < 0 then i + int (length xs) else i)
      in if 0 \<le> j \<and> j < int (length xs) then Inr (xs ! nat j) else Inl IndexError)"

definition setitem :: "'a list \<Rightarrow> int \<Rightarrow> 'a \<Rightarrow> error + 'a list" where
  "setitem xs i v =
     (let j = (if i < 0 then i + int (length xs) else i)
      in if 0 \<le> j \<and> j < int (length xs) then Inr (xs[nat j := v]) else Inl IndexError)"

text \<open>
  A record of the script is a Python dict from column names to strings.
  \<open>d[k]\<close> raises \<open>KeyError\<close> when the key is missing.
\<close>

type_synonym attr = "string \<rightharpoonup> pystr"

definition lookup :: "attr \<Rightarrow> string \<Rightarrow> error + pystr" where
  "lookup d k = (case d k of None \<Rightarrow> Inl KeyError | Some v \<Rightarrow> Inr v)"

text \<open>\<^verbatim>\<open>{key: value for key, value in pairs}\<close>: a later pair overwrites an earlier one.\<close>

definition dict_of :: "(string \<times> pystr) list \<Rightarrow> attr" where
  "dict_of kvs = foldl (\<lambda>d (k, v). d(k \<mapsto> v)) Map.empty kvs"

subsection \<open>ElementTree elements\<close>

text \<open>
  An \<^verbatim>\<open>xml.etree.ElementTree.Element\<close> with the parts the script reads: the
  tag (with its namespace in braces), the text before the first child (\<open>None\<close>
  when there is none) and the children in document order.
\<close>

datatype element = Element (tag: string) (el_text: "pystr option") (children: "element list")

text \<open>\<^verbatim>\<open>e.iter(t)\<close>: \<open>e\<close> itself and all elements below it, in document order, with tag \<open>t\<close>.\<close>

fun iter_all :: "element \<Rightarrow> element list" where
  "iter_all (Element t x cs) = Element t x cs # concat (map iter_all cs)"

definition iter :: "string \<Rightarrow> element \<Rightarrow> element list" where
  "iter t e = filter (\<lambda>x. tag x = t) (iter_all e)"

text \<open>\<^verbatim>\<open>e.find(t)\<close>: the first child of \<open>e\<close> with tag \<open>t\<close>, or \<open>None\<close>.\<close>

definition find_el :: "string \<Rightarrow> element \<Rightarrow> element option" where
  "find_el t e = List.find (\<lambda>x. tag x = t) (children e)"

subsection \<open>parse\_row\<close>

definition br :: string where
  "br = ''{http://docbook.org/ns/docbook}''"

text \<open>The text of one \<^verbatim>\<open>para\<close> cell (the body of the loop at lines 107-126).\<close>

definition cell_value :: "element \<Rightarrow> pystr" where
  "cell_value cell =
     (case find_el (br @ ''emphasis'') cell of
        Some emph_value \<Rightarrow>
          (case el_text emph_value of
             Some t \<Rightarrow> replace [0x200B] [] (strip t)
           | None \<Rightarrow> [])
      | None \<Rightarrow>
          (case el_text cell of
             Some t \<Rightarrow> replace [0x200B] [] (strip t)
           | None \<Rightarrow> []))"

definition collect_cell_values :: "element \<Rightarrow> pystr list" where
  "collect_cell_values row = map cell_value (iter (br @ ''para'') row)"

text \<open>Lines 131-134: the \<^verbatim>\<open>(Retired)\<close> marker.\<close>

definition retired_block :: "pystr list \<Rightarrow> error + pystr list" where
  "retired_block cell_values =
     ebind (getitem cell_values 1) (\<lambda>name.
       if contains (lit ''(Retired)'') name then
         ebind (setitem cell_values 4 (lit ''Retired'')) (\<lambda>cv.
         ebind (getitem cv 1) (\<lambda>name1.
           setitem cv 1 (strip (replace (lit ''(Retired)'') [] name1))))
       else Inr cell_values)"

text \<open>Lines 136-138: the part of the name after a colon goes to the info column.\<close>

definition info_block :: "pystr list \<Rightarrow> error + pystr list" where
  "info_block cell_values =
     ebind (getitem cell_values 1) (\<lambda>name.
       if contains (lit '':'') name then
         ebind (getitem cell_values 1) (\<lambda>name1.
         ebind (split (lit '':'') name1) (\<lambda>parts1.
         ebind (getitem parts1 (- 1)) (\<lambda>info.
         ebind (setitem cell_values 3 (strip info)) (\<lambda>cv.
         ebind (getitem cv 1) (\<lambda>name2.
         ebind (split (lit '':'') name2) (\<lambda>parts2.
         ebind (getitem parts2 0) (\<lambda>first.
           setitem cv 1 (strip first))))))))
       else Inr cell_values)"

definition parse_row :: "string list \<Rightarrow> element \<Rightarrow> error + attr" where
  "parse_row column_names row =
     ebind (setitem (collect_cell_values row) 3 []) (\<lambda>cv1.
     ebind (retired_block (cv1 @ [[]])) (\<lambda>cv2.
     ebind (info_block cv2) (\<lambda>cv3.
       Inr (dict_of (zip column_names cv3)))))"

subsection \<open>parse\_docbook\_table\<close>

definition column_names :: "string list" where
  "column_names = [''UID Value'', ''UID Name'', ''UID Type'', ''UID Info'', ''Retired'']"

text \<open>The list comprehension at lines 150-152: the first row that raises ends it.\<close>

fun parse_rows :: "string list \<Rightarrow> element list \<Rightarrow> error + attr list" where
  "parse_rows cn [] = Inr []"
| "parse_rows cn (row # rows) =
     ebind (parse_row cn row) (\<lambda>a. ebind (parse_rows cn rows) (\<lambda>as. Inr (a # as)))"

text \<open>
  The loop over the tables (lines 74-154). A table without a caption child makes
  \<^verbatim>\<open>table.find(...)\<close> return \<open>None\<close>, whose \<^verbatim>\<open>.text\<close> raises
  \<open>AttributeError\<close>; so does a matching table without a \<^verbatim>\<open>tbody\<close> child. When
  the loop ends without a match the function returns Python's \<open>None\<close>.
\<close>

fun tables_loop :: "pystr \<Rightarrow> element list \<Rightarrow> error + attr list option" where
  "tables_loop caption [] = Inr None"
| "tables_loop caption (table # tables) =
     (case find_el (br @ ''caption'') table of
        None \<Rightarrow> Inl AttributeError
      | Some c \<Rightarrow>
          if el_text c = Some caption then
            (case find_el (br @ ''tbody'') table of
               None \<Rightarrow> Inl AttributeError
             | Some tbody \<Rightarrow>
                 ebind (parse_rows column_names (iter (br @ ''tr'') tbody))
                   (\<lambda>row_attrs. Inr (Some row_attrs)))
          else tables_loop caption tables)"

definition parse_docbook_table :: "element \<Rightarrow> pystr \<Rightarrow> error + attr list option" where
  "parse_docbook_table book_root caption = tables_loop caption (iter (br @ ''table'') book_root)"

subsection \<open>The normalisation loop (lines 167-169)\<close>

definition normalize_attr :: "attr \<Rightarrow> error + attr" where
  "normalize_attr attr =
     ebind (lookup attr ''UID Name'') (\<lambda>n.
       let attr1 = attr(''UID Name'' \<mapsto> replace (lit ''&'') (lit ''and'') n)
       in ebind (lookup attr1 ''UID Value'') (\<lambda>v.
            Inr (attr1(''UID Value'' \<mapsto> replace [0xAD] [] v))))"

fun normalize_loop :: "attr list \<Rightarrow> error + attr list" where
  "normalize_loop [] = Inr []"
| "normalize_loop (attr # attrs) =
     ebind (normalize_attr attr) (\<lambda>a. ebind (normalize_loop attrs) (\<lambda>as. Inr (a # as)))"

subsection \<open>write\_dict\<close>

definition DICT_NAME :: pystr where
  "DICT_NAME = lit ''UID_dictionary''"

text \<open>A string between two single quotes (code point 39).\<close>

definition quoted :: "pystr \<Rightarrow> pystr" where
  "quoted s = [39] @ s @ [39]"

text \<open>
  \<^verbatim>\<open>entry_format.format(**attr)\<close> for the format string built at lines 47-48:
  the five keys are looked up in the order they occur in it.
\<close>

definition format_entry :: "attr \<Rightarrow> error + pystr" where
  "format_entry attr =
     ebind (lookup attr ''UID Value'') (\<lambda>v.
     ebind (lookup attr ''UID Name'') (\<lambda>n.
     ebind (lookup attr ''UID Type'') (\<lambda>t.
     ebind (lookup attr ''UID Info'') (\<lambda>i.
     ebind (lookup attr ''Retired'') (\<lambda>r.
       Inr (quoted v @ lit '': ('' @ quoted n @ lit '', '' @ quoted t @ lit '', '' @
            quoted i @ lit '', '' @ quoted r @ lit '')''))))))"

fun format_entries :: "attr list \<Rightarrow> error + pystr list" where
  "format_entries [] = Inr []"
| "format_entries (attr # attrs) =
     ebind (format_entry attr) (\<lambda>e. ebind (format_entries attrs) (\<lambda>es. Inr (e # es)))"

text \<open>
  \<open>fp\<close> is what the file holds so far; the result is what it holds afterwards and
  the error raised, if any. The first write has happened when the entries are
  formatted. Code point 10 is the line feed.
\<close>

definition write_dict :: "pystr \<Rightarrow> pystr \<Rightarrow> attr list \<Rightarrow> pystr \<times> error option" where
  "write_dict fp dict_name attributes =
     (let fp1 = fp @ [10] @ dict_name @ lit '' = {'' @ [10] @ lit ''    ''
      in case format_entries attributes of
           Inl e \<Rightarrow> (fp1, Some e)
         | Inr entries \<Rightarrow>
             (fp1 @ join (lit '',  # noqa'' @ [10] @ lit ''    '') entries @
                lit ''  # noqa'' @ [10] @ lit ''}'' @ [10], None))"

subsection \<open>The script body (lines 157-179)\<close>

text \<open>
  \<open>script\<close> is \<^verbatim>\<open>os.path.basename(__file__)\<close>, \<open>root\<close> the root of the parsed
  document, \<open>py_file\<close> the content of the output file before the run (\<open>None\<close>
  when it does not exist). The result is the number of records reported, or the
  error raised, and the output file after the run. Opening the file for writing
  empties it; code point 34 is the double quote. \<^verbatim>\<open>attrs += None\<close> raises
  \<open>TypeError\<close>. Fetching and parsing the document (lines 159-163) come before \<open>root\<close>
  exists and are not part of the model, nor are failures of the file system.
\<close>

definition main :: "pystr \<Rightarrow> element \<Rightarrow> pystr option \<Rightarrow> (error + nat) \<times> pystr option" where
  "main script root py_file =
     (case parse_docbook_table root (lit ''UID Values'') of
        Inl e \<Rightarrow> (Inl e, py_file)
      | Inr None \<Rightarrow> (Inl TypeError, py_file)
      | Inr (Some rows) \<Rightarrow>
          (case normalize_loop ([] @ rows) of
             Inl e \<Rightarrow> (Inl e, py_file)
           | Inr attrs \<Rightarrow>
               (let fp = [34, 34, 34] @ lit ''DICOM UID dictionary auto-generated by '' @
                         script @ [34, 34, 34, 10]
                in case write_dict fp DICT_NAME attrs of
                     (fp1, Some e) \<Rightarrow> (Inl e, Some fp1)
                   | (fp1, None) \<Rightarrow> (Inr (length attrs), Some fp1))))"

subsection \<open>Notions used to state the properties\<close>

abbreviation colon :: nat where
  "colon \<equiv> 58"

text \<open>The part of a string before the first, after the first and after the last \<open>c\<close>.\<close>

definition before_first :: "nat \<Rightarrow> pystr \<Rightarrow> pystr" where
  "before_first c s = takeWhile (\<lambda>x. x \<noteq> c) s"

definition after_first :: "nat \<Rightarrow> pystr \<Rightarrow> pystr" where
  "after_first c s = tl (dropWhile (\<lambda>x. x \<noteq> c) s)"

definition after_last :: "nat \<Rightarrow> pystr \<Rightarrow> pystr" where
  "after_last c s = rev (takeWhile (\<lambda>x. x \<noteq> c) (rev s))"

text \<open>The name cell as it stands when line 136 tests it for a colon.\<close>

definition after_retired :: "pystr \<Rightarrow> pystr" where
  "after_retired n =
     (if contains (lit ''(Retired)'') n then strip (replace (lit ''(Retired)'') [] n) else n)"

text \<open>What the colon block leaves in the name column.\<close>

definition name_part :: "pystr \<Rightarrow> pystr" where
  "name_part s = (if colon \<in> set s then strip (before_first colon s) else s)"

text \<open>Reading a field, or all five fields in column order, of the result of \<open>parse_row\<close>.\<close>

definition get_field :: "string \<Rightarrow> error + attr \<Rightarrow> pystr option" where
  "get_field k r = (case r of Inl e \<Rightarrow> None | Inr d \<Rightarrow> d k)"

definition record_fields :: "error + attr \<Rightarrow> error + pystr option list" where
  "record_fields r = (case r of Inl e \<Rightarrow> Inl e | Inr d \<Rightarrow> Inr (map d column_names))"

text \<open>The two replacements of the normalisation loop, character by character.\<close>

definition amp_to_and :: "pystr \<Rightarrow> pystr" where
  "amp_to_and n = concat (map (\<lambda>c. if c = 38 then lit ''and'' else [c]) n)"

definition drop_soft_hyphens :: "pystr \<Rightarrow> pystr" where
  "drop_soft_hyphens v = filter (\<lambda>c. c \<noteq> 0xAD) v"

text \<open>\<open>normalized a b\<close>: \<open>b\<close> is \<open>a\<close> after the normalisation loop.\<close>

definition normalized :: "attr \<Rightarrow> attr \<Rightarrow> bool" where
  "normalized a b =
     (\<exists>n v. a ''UID Name'' = Some n \<and> a ''UID Value'' = Some v \<and>
        b ''UID Name'' = Some (amp_to_and n) \<and> b ''UID Value'' = Some (drop_soft_hyphens v) \<and>
        b ''UID Type'' = a ''UID Type'' \<and> b ''UID Info'' = a ''UID Info'' \<and>
        b ''Retired'' = a ''Retired'' \<and> dom b = dom a)"

text \<open>
  The layout of section 6 of the specification: one line per record, indented by four
  spaces, in the order of the list, each ending in the lint marker; every line but the
  last has a comma after the entry. For an empty list the code still writes the indent
  and the marker, a line without an entry.
\<close>

definition entry_text :: "pystr \<Rightarrow> pystr \<Rightarrow> pystr \<Rightarrow> pystr \<Rightarrow> pystr \<Rightarrow> pystr" where
  "entry_text v n k i r =
     [39] @ v @ [39] @ lit '': ('' @ [39] @ n @ [39] @ lit '', '' @ [39] @ k @ [39] @ lit '', '' @
     [39] @ i @ [39] @ lit '', '' @ [39] @ r @ [39] @ lit '')''"

definition entry_of :: "attr \<Rightarrow> pystr" where
  "entry_of a =
     entry_text (the (a ''UID Value'')) (the (a ''UID Name'')) (the (a ''UID Type''))
       (the (a ''UID Info'')) (the (a ''Retired''))"

fun entry_lines :: "pystr list \<Rightarrow> pystr" where
  "entry_lines [] = lit ''      # noqa'' @ [10]"
| "entry_lines [e] = lit ''    '' @ e @ lit ''  # noqa'' @ [10]"
| "entry_lines (e # es) = lit ''    '' @ e @ lit '',  # noqa'' @ [10] @ entry_lines es"

text \<open>The first line of the output file.\<close>

definition header :: "pystr \<Rightarrow> pystr" where
  "header script =
     [34, 34, 34] @ lit ''DICOM UID dictionary auto-generated by '' @ script @ [34, 34, 34, 10]"

subsection \<open>The generated text as Python reads it\<close>

text \<open>
  The output is a Python module. What follows is a model of how Python reads a module of
  the shape \<open>write_dict\<close> writes: one assignment of a dict display whose keys are string
  literals and whose values are tuples of four string literals. It is not code of the
  script; it follows Python's lexical rules for that shape. The result \<open>SyntaxError\<close> is
  given only where Python rejects the text; \<open>NotModelled\<close> is given for every text that
  the model does not cover, whatever Python does with it. Code points are those of XML
  text.

  Tokens: between brackets line ends are skipped; a comment runs from \<^verbatim>\<open>#\<close> to the
  end of the line; a string literal starts and ends with a single quote (39), may not
  hold a line feed (10) or carriage return (13), and a backslash (92) in it starts an
  escape sequence. The one-character escape sequences are covered.
\<close>

datatype token =
  NAME pystr | EQUALS | LBRACE | RBRACE | LPAR | RPAR | COLON | COMMA | STRING pystr | NEWLINE

datatype read_error = SyntaxError | NotModelled

datatype lex_mode = LineStart | Code | Comment | Ident pystr | Str pystr | StrEsc pystr

type_synonym lex_state = "lex_mode \<times> nat \<times> token list"

definition is_name_start :: "nat \<Rightarrow> bool" where
  "is_name_start c = ((65 \<le> c \<and> c \<le> 90) \<or> (97 \<le> c \<and> c \<le> 122) \<or> c = 95)"

definition is_name_char :: "nat \<Rightarrow> bool" where
  "is_name_char c = (is_name_start c \<or> (48 \<le> c \<and> c \<le> 57))"

text \<open>One character outside strings, comments and names; \<open>d\<close> counts the open brackets.\<close>

definition code_step :: "nat \<Rightarrow> token list \<Rightarrow> nat \<Rightarrow> read_error + lex_state" where
  "code_step d ts c =
     (if c = 32 \<or> c = 9 \<or> c = 12 then Inr (Code, d, ts)
      else if c = 10 \<or> c = 13 then
        (if d = 0 then Inr (LineStart, d, ts @ [NEWLINE]) else Inr (Code, d, ts))
      else if c = 35 then Inr (Comment, d, ts)
      else if c = 39 then Inr (Str [], d, ts)
      else if c = 123 then Inr (Code, Suc d, ts @ [LBRACE])
      else if c = 40 then Inr (Code, Suc d, ts @ [LPAR])
      else if c = 125 then (if d = 0 then Inl SyntaxError else Inr (Code, d - 1, ts @ [RBRACE]))
      else if c = 41 then (if d = 0 then Inl SyntaxError else Inr (Code, d - 1, ts @ [RPAR]))
      else if c = 58 then Inr (Code, d, ts @ [COLON])
      else if c = 44 then Inr (Code, d, ts @ [COMMA])
      else if c = 61 then Inr (Code, d, ts @ [EQUALS])
      else if is_name_start c then Inr (Ident [c], d, ts)
      else Inl NotModelled)"

text \<open>The character after a backslash in a string literal.\<close>

definition escape_step :: "pystr \<Rightarrow> nat \<Rightarrow> read_error + lex_mode" where
  "escape_step acc c =
     (if c = 92 \<or> c = 39 \<or> c = 34 then Inr (Str (acc @ [c]))
      else if c = 10 then Inr (Str acc)
      else if c = 97 then Inr (Str (acc @ [7]))
      else if c = 98 then Inr (Str (acc @ [8]))
      else if c = 102 then Inr (Str (acc @ [12]))
      else if c = 110 then Inr (Str (acc @ [10]))
      else if c = 114 then Inr (Str (acc @ [13]))
      else if c = 116 then Inr (Str (acc @ [9]))
      else if c = 118 then Inr (Str (acc @ [11]))
      else Inl NotModelled)"

fun lex_step :: "lex_state \<Rightarrow> nat \<Rightarrow> read_error + lex_state" where
  "lex_step (LineStart, d, ts) c =
     (if c = 10 \<or> c = 13 then Inr (LineStart, d, ts)
      else if c = 32 \<or> c = 9 \<or> c = 12 then Inl NotModelled
      else code_step d ts c)"
| "lex_step (Code, d, ts) c = code_step d ts c"
| "lex_step (Comment, d, ts) c =
     (if c = 10 \<or> c = 13 then
        (if d = 0 then Inr (LineStart, d, ts @ [NEWLINE]) else Inr (Code, d, ts))
      else Inr (Comment, d, ts))"
| "lex_step (Ident acc, d, ts) c =
     (if is_name_char c then Inr (Ident (acc @ [c]), d, ts)
      else code_step d (ts @ [NAME acc]) c)"
| "lex_step (Str acc, d, ts) c =
     (if c = 39 then Inr (Code, d, ts @ [STRING acc])
      else if c = 92 then Inr (StrEsc acc, d, ts)
      else if c = 10 \<or> c = 13 then Inl SyntaxError
      else Inr (Str (acc @ [c]), d, ts))"
| "lex_step (StrEsc acc, d, ts) c =
     (case escape_step acc c of Inl e \<Rightarrow> Inl e | Inr m \<Rightarrow> Inr (m, d, ts))"

fun lex_run :: "lex_state \<Rightarrow> pystr \<Rightarrow> read_error + lex_state" where
  "lex_run st [] = Inr st"
| "lex_run st (c # cs) = (case lex_step st c of Inl e \<Rightarrow> Inl e | Inr st1 \<Rightarrow> lex_run st1 cs)"

text \<open>At the end of the text a string literal or a bracket still open is an error.\<close>

fun lex_finish :: "lex_state \<Rightarrow> read_error + token list" where
  "lex_finish (Str acc, d, ts) = Inl SyntaxError"
| "lex_finish (StrEsc acc, d, ts) = Inl SyntaxError"
| "lex_finish (Ident acc, d, ts) = (if d = 0 then Inr (ts @ [NAME acc]) else Inl SyntaxError)"
| "lex_finish (m, d, ts) = (if d = 0 then Inr ts else Inl SyntaxError)"

definition tokenize :: "pystr \<Rightarrow> read_error + token list" where
  "tokenize s = (case lex_run (LineStart, 0, []) s of Inl e \<Rightarrow> Inl e | Inr st \<Rightarrow> lex_finish st)"

text \<open>
  An entry \<^verbatim>\<open>'k': ('n', 't', 'i', 'r')\<close>, the entries of a dict display up to its closing
  brace, and the module: a name that is not a keyword, \<^verbatim>\<open>=\<close>, the display, and nothing
  else but line ends. In a dict display a later entry replaces an earlier one with the
  same key.
\<close>

type_synonym uid_entry = "pystr \<times> (pystr \<times> pystr \<times> pystr \<times> pystr)"

definition parse_entry :: "token list \<Rightarrow> (uid_entry \<times> token list) option" where
  "parse_entry ts =
     (case ts of
        STRING k # COLON # LPAR # STRING n # COMMA # STRING t # COMMA # STRING i # COMMA #
          STRING r # RPAR # rest \<Rightarrow> Some ((k, (n, t, i, r)), rest)
      | _ \<Rightarrow> None)"

function parse_entries :: "token list \<Rightarrow> read_error + uid_entry list \<times> token list" where
  "parse_entries ts =
     (case ts of
        RBRACE # rest \<Rightarrow> Inr ([], rest)
      | _ \<Rightarrow>
        (case parse_entry ts of
           None \<Rightarrow> Inl NotModelled
         | Some (e, rest) \<Rightarrow>
             (case rest of
                COMMA # rest1 \<Rightarrow>
                  (case parse_entries rest1 of
                     Inl err \<Rightarrow> Inl err
                   | Inr (es, rest2) \<Rightarrow> Inr (e # es, rest2))
              | RBRACE # rest1 \<Rightarrow> Inr ([e], rest1)
              | _ \<Rightarrow> Inl NotModelled)))"
  by pat_completeness auto
termination
  by (relation "measure length") (auto simp: parse_entry_def split: list.splits token.splits)

definition py_keywords :: "pystr list" where
  "py_keywords =
     map lit [''False'', ''None'', ''True'', ''and'', ''as'', ''assert'', ''async'', ''await'',
       ''break'', ''class'', ''continue'', ''def'', ''del'', ''elif'', ''else'', ''except'',
       ''finally'', ''for'', ''from'', ''global'', ''if'', ''import'', ''in'', ''is'', ''lambda'',
       ''nonlocal'', ''not'', ''or'', ''pass'', ''raise'', ''return'', ''try'', ''while'', ''with'',
       ''yield'']"

definition read_module :: "pystr \<Rightarrow> read_error + (pystr \<rightharpoonup> pystr \<times> pystr \<times> pystr \<times> pystr)" where
  "read_module s =
     (case tokenize s of
        Inl e \<Rightarrow> Inl e
      | Inr ts \<Rightarrow>
          (case dropWhile (\<lambda>t. t = NEWLINE) ts of
             NAME x # EQUALS # LBRACE # rest \<Rightarrow>
               (case parse_entries rest of
                  Inl e \<Rightarrow> Inl e
                | Inr (es, rest1) \<Rightarrow>
                    if x \<notin> set py_keywords \<and> list_all (\<lambda>t. t = NEWLINE) rest1
                    then Inr (foldl (\<lambda>m (k, v). m(k \<mapsto> v)) Map.empty es)
                    else Inl NotModelled)
           | _ \<Rightarrow> Inl NotModelled))"

text \<open>
  A string without single quote, backslash, line feed and carriage return; a record whose
  five fields are such strings; the entry and the mapping that the records stand for.
\<close>

definition plain :: "pystr \<Rightarrow> bool" where
  "plain s = list_all (\<lambda>c. c \<noteq> 39 \<and> c \<noteq> 92 \<and> c \<noteq> 10 \<and> c \<noteq> 13) s"

definition plain_record :: "attr \<Rightarrow> bool" where
  "plain_record a = list_all (\<lambda>k. case a k of None \<Rightarrow> False | Some s \<Rightarrow> plain s) column_names"

definition record_entry :: "attr \<Rightarrow> uid_entry" where
  "record_entry a =
     (the (a ''UID Value''),
      (the (a ''UID Name''), the (a ''UID Type''), the (a ''UID Info''), the (a ''Retired'')))"

definition keyed_by_value :: "attr list \<Rightarrow> (pystr \<rightharpoonup> pystr \<times> pystr \<times> pystr \<times> pystr)" where
  "keyed_by_value attrs = map_of (map record_entry attrs)"

definition uid_values :: "attr list \<Rightarrow> pystr list" where
  "uid_values attrs = map (\<lambda>a. the (a ''UID Value'')) attrs"

text \<open>A record whose five fields hold no single quote.\<close>

definition quote_free_record :: "attr \<Rightarrow> bool" where
  "quote_free_record a =
     list_all (\<lambda>k. case a k of None \<Rightarrow> False | Some s \<Rightarrow> 39 \<notin> set s) column_names"

text \<open>The tokens of one entry and of the entries joined by commas.\<close>

definition entry_tokens :: "uid_entry \<Rightarrow> token list" where
  "entry_tokens e =
     (case e of (v, n, k, i, r) \<Rightarrow>
        [STRING v, COLON, LPAR, STRING n, COMMA, STRING k, COMMA, STRING i, COMMA, STRING r, RPAR])"

fun joined_tokens :: "uid_entry list \<Rightarrow> token list" where
  "joined_tokens [] = []"
| "joined_tokens [e] = entry_tokens e"
| "joined_tokens (e # es) = entry_tokens e @ COMMA # joined_tokens es"

definition plain_entry :: "uid_entry \<Rightarrow> bool" where
  "plain_entry e = (case e of (v, n, k, i, r) \<Rightarrow> plain v \<and> plain n \<and> plain k \<and> plain i \<and> plain r)"

definition entry_string :: "uid_entry \<Rightarrow> pystr" where
  "entry_string e = (case e of (v, n, k, i, r) \<Rightarrow> entry_text v n k i r)"

definition looked_up :: "read_error + (pystr \<rightharpoonup> pystr \<times> pystr \<times> pystr \<times> pystr) \<Rightarrow> pystr \<Rightarrow>
    read_error + (pystr \<times> pystr \<times> pystr \<times> pystr) option" where
  "looked_up r k = (case r of Inl e \<Rightarrow> Inl e | Inr m \<Rightarrow> Inr (m k))"

subsection \<open>Example rows, documents and records\<close>

text \<open>A \<^verbatim>\<open><td><para>s</para></td>\<close> cell and a \<^verbatim>\<open><tr>\<close> row of such cells.\<close>

definition para_cell :: "pystr \<Rightarrow> element" where
  "para_cell s = Element (br @ ''td'') None [Element (br @ ''para'') (Some s) []]"

definition cell :: "string \<Rightarrow> element" where
  "cell s = para_cell (lit s)"

definition table_row :: "string list \<Rightarrow> element" where
  "table_row ss = Element (br @ ''tr'') None (map cell ss)"

definition row_two_colons :: element where
  "row_two_colons = table_row [''1.2.3'', ''a:b:c'', ''Transfer Syntax'', ''PS3.5'']"

definition row_default_syntax :: element where
  "row_default_syntax =
     table_row [''1.2.840.10008.1.2.1'', ''Explicit VR Little Endian: Default Transfer Syntax'',
                ''Transfer Syntax'', ''PS3.5'']"

definition row_three_cells :: element where
  "row_three_cells = table_row [''1.2.840.10008.1.1'', ''Verification SOP Class'', ''SOP Class'']"

definition row_four_cells :: element where
  "row_four_cells =
     table_row [''1.2.840.10008.1.1'', ''Verification SOP Class'', ''SOP Class'', ''PS3.4'']"

definition row_five_cells :: element where
  "row_five_cells =
     table_row [''1.2.840.10008.1.1'', ''Verification SOP Class'', ''Verification'',
                ''SOP Class'', ''PS3.4'']"

definition row_six_cells :: element where
  "row_six_cells =
     table_row [''1.2.840.10008.1.1'', ''Verification SOP Class'', ''Verification'',
                ''SOP Class'', ''PS3.4'', ''extra'']"

definition row_retired :: element where
  "row_retired = table_row [''1.2.840.10008.1.9'', ''Some Name (Retired)'', ''SOP Class'', ''PS3.4'']"

definition caption_el :: "string \<Rightarrow> element" where
  "caption_el s = Element (br @ ''caption'') (Some (lit s)) []"

definition table_el :: "string \<Rightarrow> element list \<Rightarrow> element" where
  "table_el cap rows =
     Element (br @ ''table'') None [caption_el cap, Element (br @ ''tbody'') None rows]"

definition book :: "element list \<Rightarrow> element" where
  "book ts = Element (br @ ''book'') None ts"

definition row_soft_hyphen :: element where
  "row_soft_hyphen =
     Element (br @ ''tr'') None
       [para_cell (lit ''1.2.'' @ [0xAD] @ lit ''3''), para_cell (lit ''A & B Storage''),
        para_cell (lit ''SOP Class''), para_cell (lit ''PS3.4'')]"

definition doc_uid_values :: element where
  "doc_uid_values =
     book [table_el ''Registry of DICOM Data Elements'' [],
           table_el ''UID Values'' [row_soft_hyphen, row_retired]]"

definition rows_uid_values :: "attr list" where
  "rows_uid_values =
     [dict_of (zip column_names
        [lit ''1.2.'' @ [0xAD] @ lit ''3'', lit ''A & B Storage'', lit ''SOP Class'', [], []]),
      dict_of (zip column_names
        [lit ''1.2.840.10008.1.9'', lit ''Some Name'', lit ''SOP Class'', [], lit ''Retired''])]"

definition doc_no_match :: element where
  "doc_no_match = book [table_el ''Registry of DICOM Data Elements'' [row_four_cells]]"

definition doc_no_caption :: element where
  "doc_no_caption =
     book [Element (br @ ''table'') None [Element (br @ ''tbody'') None [row_four_cells]],
           table_el ''UID Values'' [row_four_cells]]"

definition record_2 :: attr where
  "record_2 = dict_of (zip column_names [lit ''2'', lit ''Second'', lit ''SOP Class'', [], []])"

definition record_1 :: attr where
  "record_1 = dict_of (zip column_names [lit ''1'', lit ''First'', lit ''SOP Class'', lit ''x'', lit ''Retired''])"

definition record_a :: attr where
  "record_a = dict_of (zip column_names
     [lit ''1.2.840.10008.1.1'', lit ''Verification SOP Class'', lit ''SOP Class'', [], []])"

definition record_backslash :: attr where
  "record_backslash = dict_of (zip column_names
     [lit ''1.2.3'', [92, 92], lit ''SOP Class'', [], []])"

definition record_line_feed :: attr where
  "record_line_feed = dict_of (zip column_names
     [lit ''1.2.3'', lit ''two'' @ [10] @ lit ''lines'', lit ''SOP Class'', [], []])"

section \<open>Properties\<close>

subsection \<open>Auxiliary facts\<close>

lemma ebind_simps [simp]: "ebind (Inl e) f = Inl e" "ebind (Inr x) f = f x"
  by (simp_all add: ebind_def)

lemma getitem_first: "xs \<noteq> [] \<Longrightarrow> getitem xs 0 = Inr (hd xs)"
  by (cases xs) (simp_all add: getitem_def)

lemma getitem_last: "xs \<noteq> [] \<Longrightarrow> getitem xs (- 1) = Inr (last xs)"
  by (cases xs rule: rev_cases) (simp_all add: getitem_def)

lemma getitem_lit: "1 < length xs \<Longrightarrow> getitem xs 1 = Inr (xs ! 1)"
  by (simp add: getitem_def)

lemma setitem_lit:
  "1 < length xs \<Longrightarrow> setitem xs 1 v = Inr (xs[1 := v])"
  "3 < length xs \<Longrightarrow> setitem xs 3 v = Inr (xs[3 := v])"
  "4 < length xs \<Longrightarrow> setitem xs 4 v = Inr (xs[4 := v])"
  by (simp_all add: setitem_def)

lemma setitem_3_short: "length xs < 4 \<Longrightarrow> setitem xs 3 v = Inl IndexError"
  by (simp add: setitem_def)

lemma contains_single: "contains [c] s = (c \<in> set s)"
  by (induction s) auto

lemma split_from_nonempty: "split_from sep cur s \<noteq> []"
  by (induction sep cur s rule: split_from.induct) auto

lemma hd_split_from_single:
  "hd (split_from [c] cur s) = rev cur @ takeWhile (\<lambda>x. x \<noteq> c) s"
  by (induction s arbitrary: cur) auto

lemma takeWhile_neq_absent:
  "c \<notin> set s \<Longrightarrow> takeWhile (\<lambda>x. x \<noteq> c) (s @ r) = s @ takeWhile (\<lambda>x. x \<noteq> c) r"
  by (induction s) auto

lemma takeWhile_neq_present:
  "c \<in> set s \<Longrightarrow> takeWhile (\<lambda>x. x \<noteq> c) (s @ r) = takeWhile (\<lambda>x. x \<noteq> c) s"
  by (induction s) auto

lemma last_split_from_single:
  "last (split_from [c] cur s) =
     (if c \<in> set s then rev (takeWhile (\<lambda>x. x \<noteq> c) (rev s)) else rev cur @ s)"
proof (induction s arbitrary: cur)
  case Nil
  then show ?case by simp
next
  case (Cons x s)
  show ?case
  proof (cases "x = c")
    case True
    then show ?thesis
      using Cons.IH [of "[]"] split_from_nonempty [of "[c]" "[]" s]
      by (auto simp: takeWhile_neq_absent takeWhile_neq_present)
  next
    case False
    then show ?thesis
      using Cons.IH [of "x # cur"]
      by (auto simp: takeWhile_neq_absent takeWhile_neq_present)
  qed
qed

lemma replace_single:
  "replace [c] new s = concat (map (\<lambda>x. if x = c then new else [x]) s)"
  by (induction s) auto

lemma replace_single_empty: "replace [c] [] s = filter (\<lambda>x. x \<noteq> c) s"
  by (induction s) auto

lemma after_last_one_colon:
  "count_list s c = 1 \<Longrightarrow> after_last c s = after_first c s"
proof (induction s)
  case Nil
  then show ?case by simp
next
  case (Cons x s)
  show ?case
  proof (cases "x = c")
    case True
    with Cons.prems have "c \<notin> set s"
      by (simp add: count_list_0_iff)
    with True show ?thesis
      by (simp add: after_last_def after_first_def takeWhile_neq_absent)
  next
    case False
    with Cons.prems have one: "count_list s c = 1"
      by simp
    then have "c \<in> set s"
      by (metis count_list_0_iff zero_neq_one)
    with False Cons.IH [OF one] show ?thesis
      by (simp add: after_last_def after_first_def takeWhile_neq_present)
  qed
qed

subsection \<open>What parse\_row computes\<close>

lemma retired_block_eq:
  "4 < length cv \<Longrightarrow>
   retired_block cv =
     Inr (if contains (lit ''(Retired)'') (cv ! 1)
          then cv[4 := lit ''Retired'', 1 := strip (replace (lit ''(Retired)'') [] (cv ! 1))]
          else cv)"
  by (simp add: retired_block_def getitem_lit setitem_lit)

lemma info_block_eq:
  "3 < length cv \<Longrightarrow>
   info_block cv =
     Inr (if colon \<in> set (cv ! 1)
          then cv[3 := strip (after_last colon (cv ! 1)),
                  1 := strip (before_first colon (cv ! 1))]
          else cv)"
  by (simp add: info_block_def getitem_lit setitem_lit split_def contains_single
      getitem_first getitem_last split_from_nonempty hd_split_from_single
      last_split_from_single after_last_def before_first_def)

lemma parse_row_short:
  "length (collect_cell_values row) < 4 \<Longrightarrow> parse_row cn row = Inl IndexError"
  by (simp add: parse_row_def setitem_3_short)

lemma parse_row_long:
  assumes "collect_cell_values row = v # n # t # p # rest"
  shows "parse_row cn row =
     Inr (dict_of (zip cn
       (v # name_part (after_retired n) # t #
        (if colon \<in> set (after_retired n) then strip (after_last colon (after_retired n)) else []) #
        (if contains (lit ''(Retired)'') n then lit ''Retired'' else hd (rest @ [[]])) #
        tl (rest @ [[]]))))"
proof -
  obtain r rs where r: "rest @ [[]] = r # rs"
    by (cases "rest @ [[]]") auto
  have "setitem (collect_cell_values row) 3 [] = Inr (v # n # t # [] # rest)"
    using assms by (simp add: setitem_lit)
  moreover have "retired_block (v # n # t # [] # r # rs) =
      Inr (v # after_retired n # t # [] #
           (if contains (lit ''(Retired)'') n then lit ''Retired'' else r) # rs)"
    by (simp add: retired_block_eq after_retired_def)
  moreover have "info_block (v # after_retired n # t # [] # x # rs) =
      Inr (v # name_part (after_retired n) # t #
           (if colon \<in> set (after_retired n)
            then strip (after_last colon (after_retired n)) else []) # x # rs)" for x
    by (simp add: info_block_eq name_part_def)
  ultimately show ?thesis
    using r by (simp add: parse_row_def)
qed

lemma four_cells_shape:
  "4 \<le> length xs \<Longrightarrow> \<exists>v n t p rest. xs = v # n # t # p # rest"
  by (cases xs; cases "tl xs"; cases "tl (tl xs)"; cases "tl (tl (tl xs))") auto

lemma dict_of_column_names:
  "dict_of (zip column_names (a # b # c # d # e # xs)) =
     [''UID Value'' \<mapsto> a, ''UID Name'' \<mapsto> b, ''UID Type'' \<mapsto> c, ''UID Info'' \<mapsto> d,
      ''Retired'' \<mapsto> e]"
  by (simp add: dict_of_def column_names_def)

lemma record_fields_dict:
  "record_fields (Inr (dict_of (zip column_names (a # b # c # d # e # xs)))) =
     Inr [Some a, Some b, Some c, Some d, Some e]"
  by (simp add: record_fields_def dict_of_column_names) (simp add: column_names_def)

lemma get_field_dict:
  "get_field ''UID Value'' (Inr (dict_of (zip column_names (a # b # c # d # e # xs)))) = Some a"
  "get_field ''UID Name'' (Inr (dict_of (zip column_names (a # b # c # d # e # xs)))) = Some b"
  "get_field ''UID Type'' (Inr (dict_of (zip column_names (a # b # c # d # e # xs)))) = Some c"
  "get_field ''UID Info'' (Inr (dict_of (zip column_names (a # b # c # d # e # xs)))) = Some d"
  "get_field ''Retired'' (Inr (dict_of (zip column_names (a # b # c # d # e # xs)))) = Some e"
  by (simp_all add: get_field_def dict_of_column_names)

text \<open>The cells of a row built with \<open>table_row\<close> from strings that need no trimming.\<close>

lemmas row_eval =
  table_row_def cell_def para_cell_def collect_cell_values_def iter_def cell_value_def find_el_def br_def
  strip_def isspace_def

lemma cells_two_colons:
  "collect_cell_values row_two_colons =
     [lit ''1.2.3'', lit ''a:b:c'', lit ''Transfer Syntax'', lit ''PS3.5'']"
  by (simp add: row_two_colons_def row_eval)

lemma cells_default_syntax:
  "collect_cell_values row_default_syntax =
     [lit ''1.2.840.10008.1.2.1'', lit ''Explicit VR Little Endian: Default Transfer Syntax'',
      lit ''Transfer Syntax'', lit ''PS3.5'']"
  by (simp add: row_default_syntax_def row_eval)

lemma cells_three:
  "collect_cell_values row_three_cells =
     [lit ''1.2.840.10008.1.1'', lit ''Verification SOP Class'', lit ''SOP Class'']"
  by (simp add: row_three_cells_def row_eval)

lemma cells_four:
  "collect_cell_values row_four_cells =
     [lit ''1.2.840.10008.1.1'', lit ''Verification SOP Class'', lit ''SOP Class'', lit ''PS3.4'']"
  by (simp add: row_four_cells_def row_eval)

lemma cells_five:
  "collect_cell_values row_five_cells =
     [lit ''1.2.840.10008.1.1'', lit ''Verification SOP Class'', lit ''Verification'',
      lit ''SOP Class'', lit ''PS3.4'']"
  by (simp add: row_five_cells_def row_eval)

lemma cells_six:
  "collect_cell_values row_six_cells =
     [lit ''1.2.840.10008.1.1'', lit ''Verification SOP Class'', lit ''Verification'',
      lit ''SOP Class'', lit ''PS3.4'', lit ''extra'']"
  by (simp add: row_six_cells_def row_eval)

lemma cells_retired:
  "collect_cell_values row_retired =
     [lit ''1.2.840.10008.1.9'', lit ''Some Name (Retired)'', lit ''SOP Class'', lit ''PS3.4'']"
  by (simp add: row_retired_def row_eval)

subsection \<open>C1: the colon block\<close>

text \<open>
  C1 as stated: when the name contains a colon, the name becomes the trimmed part before
  the first colon and the info becomes the trimmed part after the first colon. The code
  takes \<^verbatim>\<open>split(':')[-1]\<close> for the info, the part after the last colon: for the name
  \<^verbatim>\<open>a:b:c\<close> the info is \<^verbatim>\<open>c\<close>, where the part after the first colon is \<^verbatim>\<open>b:c\<close>.
\<close>

theorem info_split_counterexample:
  "collect_cell_values row_two_colons ! 1 = lit ''a:b:c'' \<and>
   get_field ''UID Info'' (parse_row column_names row_two_colons) = Some (lit ''c'') \<and>
   strip (after_first colon (lit ''a:b:c'')) = lit ''b:c''"
  by (simp add: parse_row_long [OF cells_two_colons] cells_two_colons get_field_dict
      after_retired_def after_last_def after_first_def strip_def isspace_def)

text \<open>
  C1, amended: for every row that yields a record and whose name, as it stands after the
  \<^verbatim>\<open>(Retired)\<close> block, contains a colon, the name field is the trimmed part before the
  first colon and the info field is the trimmed part after the last colon; when the name
  has exactly one colon this is the trimmed part after the first colon.
\<close>

theorem info_split_first_and_last_colon:
  assumes "parse_row column_names row = Inr d"
    and "colon \<in> set (after_retired (collect_cell_values row ! 1))"
  shows "d ''UID Name'' =
           Some (strip (before_first colon (after_retired (collect_cell_values row ! 1)))) \<and>
         d ''UID Info'' =
           Some (strip (after_last colon (after_retired (collect_cell_values row ! 1)))) \<and>
         (count_list (after_retired (collect_cell_values row ! 1)) colon = 1 \<longrightarrow>
            d ''UID Info'' =
              Some (strip (after_first colon (after_retired (collect_cell_values row ! 1)))))"
proof -
  have "4 \<le> length (collect_cell_values row)"
    using assms(1) parse_row_short [of row column_names]
    by (cases "4 \<le> length (collect_cell_values row)") auto
  then obtain v n t p rest where cells: "collect_cell_values row = v # n # t # p # rest"
    using four_cells_shape by blast
  from assms(1) have "d = dict_of (zip column_names
       (v # name_part (after_retired n) # t #
        (if colon \<in> set (after_retired n) then strip (after_last colon (after_retired n)) else []) #
        (if contains (lit ''(Retired)'') n then lit ''Retired'' else hd (rest @ [[]])) #
        tl (rest @ [[]])))"
    by (simp add: parse_row_long [OF cells])
  with assms(2) cells show ?thesis
    by (simp add: dict_of_column_names name_part_def after_last_one_colon)
qed

theorem info_split_first_and_last_colon_witness:
  "colon \<in> set (after_retired (collect_cell_values row_default_syntax ! 1)) \<and>
   count_list (after_retired (collect_cell_values row_default_syntax ! 1)) colon = 1 \<and>
   get_field ''UID Name'' (parse_row column_names row_default_syntax) =
     Some (lit ''Explicit VR Little Endian'') \<and>
   get_field ''UID Info'' (parse_row column_names row_default_syntax) =
     Some (lit ''Default Transfer Syntax'')"
proof -
  let ?d = "dict_of (zip column_names [lit ''1.2.840.10008.1.2.1'',
      lit ''Explicit VR Little Endian'', lit ''Transfer Syntax'',
      lit ''Default Transfer Syntax'', []])"
  have p: "parse_row column_names row_default_syntax = Inr ?d"
    by (simp add: parse_row_long [OF cells_default_syntax] after_retired_def name_part_def
        after_last_def before_first_def strip_def isspace_def)
  have c: "colon \<in> set (after_retired (collect_cell_values row_default_syntax ! 1))"
    by (simp add: cells_default_syntax after_retired_def)
  have n: "count_list (after_retired (collect_cell_values row_default_syntax ! 1)) colon = 1"
    by (simp add: cells_default_syntax after_retired_def)
  from info_split_first_and_last_colon [OF p c] n have
    "?d ''UID Name'' = Some (lit ''Explicit VR Little Endian'') \<and>
     ?d ''UID Info'' = Some (lit ''Default Transfer Syntax'')"
    by (simp add: cells_default_syntax after_retired_def
        after_last_def before_first_def strip_def isspace_def)
  with p c n show ?thesis
    by (simp add: get_field_def)
qed

subsection \<open>C2: rows with the wrong number of cells\<close>

text \<open>
  C2 as stated: a row that yields a number of cell values other than 5 raises an error and
  gives no record. The code assigns to position 3 and appends one value, so a row of four
  cells gives a record, and so does a row of six cells, whose last cell is dropped by
  \<^verbatim>\<open>zip\<close>.
\<close>

theorem wrong_cell_count_counterexample:
  "length (collect_cell_values row_four_cells) = 4 \<and>
   record_fields (parse_row column_names row_four_cells) =
     Inr [Some (lit ''1.2.840.10008.1.1''), Some (lit ''Verification SOP Class''),
          Some (lit ''SOP Class''), Some [], Some []] \<and>
   length (collect_cell_values row_six_cells) = 6 \<and>
   record_fields (parse_row column_names row_six_cells) =
     Inr [Some (lit ''1.2.840.10008.1.1''), Some (lit ''Verification SOP Class''),
          Some (lit ''Verification''), Some [], Some (lit ''PS3.4'')]"
  by (simp add: parse_row_long [OF cells_four] parse_row_long [OF cells_six] cells_four cells_six
      record_fields_dict after_retired_def name_part_def)

text \<open>
  C2, amended: row extraction raises \<open>IndexError\<close> exactly for the rows that yield fewer
  than 4 cell values, and no record is produced for them; every row that yields 4 or more
  cell values gives a record.
\<close>

theorem parse_row_raises_below_four_cells:
  "((parse_row cn row = Inl IndexError) = (length (collect_cell_values row) < 4)) \<and>
   ((\<exists>d. parse_row cn row = Inr d) = (4 \<le> length (collect_cell_values row)))"
proof (cases "4 \<le> length (collect_cell_values row)")
  case True
  then obtain v n t p rest where "collect_cell_values row = v # n # t # p # rest"
    using four_cells_shape by blast
  from parse_row_long [OF this, of cn] True show ?thesis
    by simp
next
  case False
  then show ?thesis
    by (simp add: parse_row_short)
qed

theorem parse_row_raises_below_four_cells_witness:
  "length (collect_cell_values row_three_cells) = 3 \<and>
   parse_row column_names row_three_cells = Inl IndexError"
  using parse_row_raises_below_four_cells [of column_names row_three_cells]
  by (simp add: cells_three)

subsection \<open>C3: the shape of a record\<close>

text \<open>
  C3 as stated: for a row yielding exactly 5 cell values the retired field is the empty
  string or \<^verbatim>\<open>Retired\<close>. With five cells the value at position 4 is the row's fifth
  cell, and it is what the record gets as its retired field.
\<close>

theorem retired_enumeration_counterexample:
  "length (collect_cell_values row_five_cells) = 5 \<and>
   get_field ''Retired'' (parse_row column_names row_five_cells) = Some (lit ''PS3.4'') \<and>
   lit ''PS3.4'' \<noteq> [] \<and> lit ''PS3.4'' \<noteq> lit ''Retired''"
  by (simp add: parse_row_long [OF cells_five] cells_five get_field_dict)

text \<open>
  C3, amended: for every row yielding at least 4 cell values the record has exactly the
  five fixed fields, each a string; its retired field is \<^verbatim>\<open>Retired\<close> when the name cell
  contains \<^verbatim>\<open>(Retired)\<close>, and otherwise the empty string when the row yields exactly 4
  cells and the row's fifth cell value when it yields more.
\<close>

theorem record_shape:
  assumes "4 \<le> length (collect_cell_values row)"
  shows "\<exists>d. parse_row column_names row = Inr d \<and>
           dom d = set column_names \<and> card (dom d) = 5 \<and>
           d ''Retired'' =
             Some (if contains (lit ''(Retired)'') (collect_cell_values row ! 1) then lit ''Retired''
                   else if length (collect_cell_values row) = 4 then []
                   else collect_cell_values row ! 4)"
proof -
  from assms obtain v n t p rest where cells: "collect_cell_values row = v # n # t # p # rest"
    using four_cells_shape by blast
  have "hd (rest @ [[]]) = (if rest = [] then [] else rest ! 0)"
    by (cases rest) simp_all
  moreover obtain r rs where "rest @ [[]] = r # rs"
    by (cases "rest @ [[]]") auto
  ultimately show ?thesis
    unfolding parse_row_long [OF cells] cells
    by (simp add: dict_of_column_names) (auto simp: column_names_def)
qed

theorem record_shape_witness:
  "4 \<le> length (collect_cell_values row_retired) \<and>
   get_field ''Retired'' (parse_row column_names row_retired) = Some (lit ''Retired'') \<and>
   4 \<le> length (collect_cell_values row_four_cells) \<and>
   get_field ''Retired'' (parse_row column_names row_four_cells) = Some []"
proof -
  have a: "4 \<le> length (collect_cell_values row_retired)"
    and b: "4 \<le> length (collect_cell_values row_four_cells)"
    by (simp_all add: cells_retired cells_four)
  from record_shape [OF a] record_shape [OF b] a b show ?thesis
    by (auto simp: get_field_def cells_retired cells_four)
qed

subsection \<open>C4: the (Retired) block\<close>

text \<open>
  C4 as stated: if \<^verbatim>\<open>(Retired)\<close> does not occur in the name, the retired field retains
  its default, the empty string. The block leaves position 4 as it finds it, and for a row
  of five cells that position holds the row's fifth cell: the row below has no marker in
  its name and its retired field is \<^verbatim>\<open>PS3.4\<close>.
\<close>

theorem retired_default_counterexample:
  "length (collect_cell_values row_five_cells) = 5 \<and>
   \<not> contains (lit ''(Retired)'') (collect_cell_values row_five_cells ! 1) \<and>
   get_field ''Retired'' (parse_row column_names row_five_cells) = Some (lit ''PS3.4'') \<and>
   lit ''PS3.4'' \<noteq> []"
  by (simp add: parse_row_long [OF cells_five] cells_five get_field_dict)

text \<open>
  C4, amended: for every row that yields a record, if \<^verbatim>\<open>(Retired)\<close> occurs in the name
  cell then the retired field is \<^verbatim>\<open>Retired\<close> and the name that goes on to the colon
  block is the name cell with every \<^verbatim>\<open>(Retired)\<close> replaced by nothing and then trimmed;
  if it does not occur, the retired field keeps the value that position 4 had before the
  block, which is the empty string appended at line 129 for a row of exactly four cells
  and the row's fifth cell for a longer row, and the name goes on unchanged.
\<close>

theorem retired_block_effect:
  assumes "parse_row column_names row = Inr d"
  shows "(contains (lit ''(Retired)'') (collect_cell_values row ! 1) \<longrightarrow>
            d ''Retired'' = Some (lit ''Retired'') \<and>
            d ''UID Name'' =
              Some (name_part (strip (replace (lit ''(Retired)'') [] (collect_cell_values row ! 1))))) \<and>
         (\<not> contains (lit ''(Retired)'') (collect_cell_values row ! 1) \<longrightarrow>
            d ''Retired'' =
              Some (if length (collect_cell_values row) = 4 then [] else collect_cell_values row ! 4) \<and>
            d ''UID Name'' = Some (name_part (collect_cell_values row ! 1)))"
proof -
  have "4 \<le> length (collect_cell_values row)"
    using assms parse_row_short [of row column_names]
    by (cases "4 \<le> length (collect_cell_values row)") auto
  then obtain v n t p rest where cells: "collect_cell_values row = v # n # t # p # rest"
    using four_cells_shape by blast
  have "hd (rest @ [[]]) = (if rest = [] then [] else rest ! 0)"
    by (cases rest) simp_all
  moreover from assms have "d = dict_of (zip column_names
       (v # name_part (after_retired n) # t #
        (if colon \<in> set (after_retired n) then strip (after_last colon (after_retired n)) else []) #
        (if contains (lit ''(Retired)'') n then lit ''Retired'' else hd (rest @ [[]])) #
        tl (rest @ [[]])))"
    by (simp add: parse_row_long [OF cells])
  ultimately show ?thesis
    using cells by (simp add: dict_of_column_names after_retired_def)
qed

theorem retired_block_effect_witness:
  "contains (lit ''(Retired)'') (collect_cell_values row_retired ! 1) \<and>
   get_field ''Retired'' (parse_row column_names row_retired) = Some (lit ''Retired'') \<and>
   get_field ''UID Name'' (parse_row column_names row_retired) = Some (lit ''Some Name'') \<and>
   \<not> contains (lit ''(Retired)'') (collect_cell_values row_four_cells ! 1) \<and>
   length (collect_cell_values row_four_cells) = 4 \<and>
   get_field ''Retired'' (parse_row column_names row_four_cells) = Some [] \<and>
   get_field ''UID Name'' (parse_row column_names row_four_cells) =
     Some (lit ''Verification SOP Class'') \<and>
   \<not> contains (lit ''(Retired)'') (collect_cell_values row_six_cells ! 1) \<and>
   length (collect_cell_values row_six_cells) = 6 \<and>
   get_field ''Retired'' (parse_row column_names row_six_cells) = Some (lit ''PS3.4'') \<and>
   get_field ''UID Name'' (parse_row column_names row_six_cells) =
     Some (lit ''Verification SOP Class'')"
proof -
  let ?d = "dict_of (zip column_names [lit ''1.2.840.10008.1.9'', lit ''Some Name'',
      lit ''SOP Class'', [], lit ''Retired''])"
  let ?e = "dict_of (zip column_names [lit ''1.2.840.10008.1.1'', lit ''Verification SOP Class'',
      lit ''SOP Class'', [], []])"
  let ?f = "dict_of (zip column_names [lit ''1.2.840.10008.1.1'', lit ''Verification SOP Class'',
      lit ''Verification'', [], lit ''PS3.4'', lit ''extra'', []])"
  have p: "parse_row column_names row_retired = Inr ?d"
    by (simp add: parse_row_long [OF cells_retired] after_retired_def name_part_def
        strip_def isspace_def)
  have q: "parse_row column_names row_four_cells = Inr ?e"
    by (simp add: parse_row_long [OF cells_four] after_retired_def name_part_def)
  have r: "parse_row column_names row_six_cells = Inr ?f"
    by (simp add: parse_row_long [OF cells_six] after_retired_def name_part_def)
  from retired_block_effect [OF p] retired_block_effect [OF q] retired_block_effect [OF r]
  show ?thesis
    unfolding p q r
    by (simp add: get_field_def cells_retired cells_four cells_six name_part_def strip_def
        isspace_def)
qed

subsection \<open>Facts about the table, the normalisation loop and write\_dict\<close>

lemma dom_dict_of_column_names:
  "dom (dict_of (zip column_names (a # b # c # d # e # xs))) = set column_names"
  by (simp add: dict_of_column_names) (auto simp: column_names_def)

lemma parse_row_dom:
  assumes "parse_row column_names row = Inr d"
  shows "dom d = set column_names"
proof -
  have "4 \<le> length (collect_cell_values row)"
    using assms parse_row_short [of row column_names]
    by (cases "4 \<le> length (collect_cell_values row)") auto
  then obtain v n t p rest where cells: "collect_cell_values row = v # n # t # p # rest"
    using four_cells_shape by blast
  obtain r rs where r: "rest @ [[]] = r # rs"
    by (cases "rest @ [[]]") auto
  from assms have "d = dict_of (zip column_names
       (v # name_part (after_retired n) # t #
        (if colon \<in> set (after_retired n) then strip (after_last colon (after_retired n)) else []) #
        (if contains (lit ''(Retired)'') n then lit ''Retired'' else hd (rest @ [[]])) #
        tl (rest @ [[]])))"
    by (simp add: parse_row_long [OF cells])
  then show ?thesis
    by (simp only: dom_dict_of_column_names)
qed

lemma parse_rows_dom:
  "parse_rows column_names rows = Inr attrs \<Longrightarrow> \<forall>a \<in> set attrs. dom a = set column_names"
proof (induction rows arbitrary: attrs)
  case Nil
  then show ?case by simp
next
  case (Cons row rows)
  from Cons.prems obtain d rest where d: "parse_row column_names row = Inr d"
    and rest: "parse_rows column_names rows = Inr rest" and attrs: "attrs = d # rest"
    by (auto simp: ebind_def split: sum.splits)
  from parse_row_dom [OF d] Cons.IH [OF rest] attrs show ?case
    by simp
qed

lemma tables_loop_dom:
  "tables_loop caption ts = Inr (Some attrs) \<Longrightarrow> \<forall>a \<in> set attrs. dom a = set column_names"
proof (induction ts)
  case Nil
  then show ?case by simp
next
  case (Cons t ts)
  show ?case
  proof (cases "find_el (br @ ''caption'') t")
    case None
    with Cons.prems show ?thesis by simp
  next
    case (Some c)
    show ?thesis
    proof (cases "el_text c = Some caption")
      case False
      with Some Cons show ?thesis by simp
    next
      case True
      with Some Cons.prems obtain tbody where
        "parse_rows column_names (iter (br @ ''tr'') tbody) = Inr attrs"
        by (auto simp: ebind_def split: option.splits sum.splits)
      then show ?thesis by (rule parse_rows_dom)
    qed
  qed
qed

lemma parse_docbook_table_dom:
  "parse_docbook_table root caption = Inr (Some attrs) \<Longrightarrow>
   \<forall>a \<in> set attrs. dom a = set column_names"
  unfolding parse_docbook_table_def by (rule tables_loop_dom)

lemma tables_loop_no_match:
  "\<forall>t \<in> set ts. \<forall>c. find_el (br @ ''caption'') t = Some c \<longrightarrow> el_text c \<noteq> Some caption \<Longrightarrow>
   tables_loop caption ts = Inr None \<or> tables_loop caption ts = Inl AttributeError"
  by (induction ts) (auto split: option.splits)

lemma tables_loop_missing_caption:
  "find_el (br @ ''caption'') t = None \<Longrightarrow>
   \<forall>x \<in> set earlier. \<exists>c. find_el (br @ ''caption'') x = Some c \<and> el_text c \<noteq> Some caption \<Longrightarrow>
   tables_loop caption (earlier @ t # later) = Inl AttributeError"
  by (induction earlier) auto

lemma concat_map_drop:
  "concat (map (\<lambda>x. if x = c then [] else [x]) s) = filter (\<lambda>x. x \<noteq> c) s"
  by (induction s) auto

lemma normalize_attr_keys:
  assumes "a ''UID Name'' = Some n" "a ''UID Value'' = Some v"
  shows "normalize_attr a =
           Inr (a(''UID Name'' \<mapsto> amp_to_and n, ''UID Value'' \<mapsto> drop_soft_hyphens v))"
  using assms
  by (simp add: normalize_attr_def lookup_def replace_single concat_map_drop
      amp_to_and_def drop_soft_hyphens_def cong: if_cong)

lemma has_name_value:
  assumes "dom a = set column_names"
  shows "\<exists>n v. a ''UID Name'' = Some n \<and> a ''UID Value'' = Some v"
proof -
  have "''UID Name'' \<in> dom a" "''UID Value'' \<in> dom a"
    by (simp_all add: assms column_names_def)
  then show ?thesis by blast
qed

lemma normalize_attr_normalized:
  assumes "dom a = set column_names"
  shows "\<exists>b. normalize_attr a = Inr b \<and> normalized a b"
proof -
  from has_name_value [OF assms] obtain n v
    where nv: "a ''UID Name'' = Some n" "a ''UID Value'' = Some v"
    by blast
  then have "''UID Name'' \<in> dom a" "''UID Value'' \<in> dom a"
    by blast+
  then have "dom (a(''UID Name'' \<mapsto> amp_to_and n, ''UID Value'' \<mapsto> drop_soft_hyphens v)) = dom a"
    by (simp add: insert_absorb)
  then have "normalized a (a(''UID Name'' \<mapsto> amp_to_and n, ''UID Value'' \<mapsto> drop_soft_hyphens v))"
    unfolding normalized_def using nv by simp
  then show ?thesis
    by (simp add: normalize_attr_keys [OF nv])
qed

lemma normalize_loop_normalized:
  "\<forall>a \<in> set rows. dom a = set column_names \<Longrightarrow>
   \<exists>attrs. normalize_loop rows = Inr attrs \<and> list_all2 normalized rows attrs"
proof (induction rows)
  case Nil
  then show ?case by simp
next
  case (Cons a rows)
  then obtain attrs where "normalize_loop rows = Inr attrs" "list_all2 normalized rows attrs"
    by auto
  moreover from Cons.prems have "dom a = set column_names"
    by simp
  then obtain b where "normalize_attr a = Inr b" "normalized a b"
    using normalize_attr_normalized [of a] by blast
  ultimately show ?case by simp
qed

lemma normalized_dom: "normalized a b \<Longrightarrow> dom b = dom a"
  by (auto simp: normalized_def)

lemma has_keys_lookup:
  assumes "set column_names \<subseteq> dom a"
  shows "lookup a ''UID Value'' = Inr (the (a ''UID Value''))"
    "lookup a ''UID Name'' = Inr (the (a ''UID Name''))"
    "lookup a ''UID Type'' = Inr (the (a ''UID Type''))"
    "lookup a ''UID Info'' = Inr (the (a ''UID Info''))"
    "lookup a ''Retired'' = Inr (the (a ''Retired''))"
  using assms by (auto simp: lookup_def column_names_def dom_def)

lemma format_entry_keys:
  "set column_names \<subseteq> dom a \<Longrightarrow> format_entry a = Inr (entry_of a)"
  by (simp add: format_entry_def has_keys_lookup entry_of_def entry_text_def quoted_def)

lemma format_entries_keys:
  "\<forall>a \<in> set attrs. set column_names \<subseteq> dom a \<Longrightarrow>
   format_entries attrs = Inr (map entry_of attrs)"
  by (induction attrs) (simp_all add: format_entry_keys)

lemma join_entry_lines:
  "es \<noteq> [] \<Longrightarrow>
   lit ''    '' @ join (lit '',  # noqa'' @ [10] @ lit ''    '') es @ lit ''  # noqa'' @ [10] =
   entry_lines es"
  by (induction es rule: entry_lines.induct) simp_all

lemma write_dict_succeeds:
  assumes "\<forall>a \<in> set attrs. set column_names \<subseteq> dom a"
  shows "\<exists>out. write_dict fp dict_name attrs = (out, None)"
  by (simp add: write_dict_def format_entries_keys [OF assms])

lemma main_after_parse:
  assumes "parse_docbook_table root (lit ''UID Values'') = Inr (Some rows)"
  shows "\<exists>attrs out. normalize_loop rows = Inr attrs \<and> list_all2 normalized rows attrs \<and>
           write_dict (header script) DICT_NAME attrs = (out, None) \<and>
           main script root f = (Inr (length rows), Some out)"
proof -
  have keys: "\<forall>a \<in> set rows. dom a = set column_names"
    using assms by (rule parse_docbook_table_dom)
  then obtain attrs where n: "normalize_loop rows = Inr attrs"
    and all: "list_all2 normalized rows attrs"
    using normalize_loop_normalized by blast
  from all have len: "length attrs = length rows"
    by (simp add: list_all2_lengthD)
  from all have each: "\<forall>i < length rows. normalized (rows ! i) (attrs ! i)"
    by (simp add: list_all2_conv_all_nth)
  have "\<forall>b \<in> set attrs. set column_names \<subseteq> dom b"
  proof
    fix b assume "b \<in> set attrs"
    then obtain i where "i < length attrs" "b = attrs ! i"
      by (auto simp: in_set_conv_nth)
    with each len have "normalized (rows ! i) b" "rows ! i \<in> set rows"
      by simp_all
    with keys show "set column_names \<subseteq> dom b"
      by (simp add: normalized_dom)
  qed
  then obtain out where w: "write_dict (header script) DICT_NAME attrs = (out, None)"
    using write_dict_succeeds by blast
  have "main script root f = (Inr (length rows), Some out)"
    using w assms n len unfolding header_def by (simp add: main_def Let_def)
  with n all w show ?thesis
    by blast
qed

lemma cells_soft_hyphen:
  "collect_cell_values row_soft_hyphen =
     [lit ''1.2.'' @ [0xAD] @ lit ''3'', lit ''A & B Storage'', lit ''SOP Class'', lit ''PS3.4'']"
  by (simp add: row_soft_hyphen_def para_cell_def collect_cell_values_def iter_def cell_value_def
      find_el_def br_def strip_def isspace_def)

lemma parse_doc_uid_values:
  "parse_docbook_table doc_uid_values (lit ''UID Values'') = Inr (Some rows_uid_values)"
proof -
  have i: "iter (br @ ''table'') doc_uid_values =
      [table_el ''Registry of DICOM Data Elements'' [],
       table_el ''UID Values'' [row_soft_hyphen, row_retired]]"
    by (simp add: doc_uid_values_def book_def iter_def table_el_def caption_el_def br_def
        row_soft_hyphen_def row_retired_def table_row_def cell_def para_cell_def)
  have r: "iter (br @ ''tr'') (Element (br @ ''tbody'') None [row_soft_hyphen, row_retired]) =
      [row_soft_hyphen, row_retired]"
    by (simp add: iter_def br_def row_soft_hyphen_def row_retired_def table_row_def cell_def para_cell_def)
  have p1: "parse_row column_names row_soft_hyphen = Inr (rows_uid_values ! 0)"
    by (simp add: parse_row_long [OF cells_soft_hyphen [simplified]] rows_uid_values_def
        after_retired_def name_part_def)
  have p2: "parse_row column_names row_retired = Inr (rows_uid_values ! 1)"
    by (simp add: parse_row_long [OF cells_retired [simplified]] rows_uid_values_def
        after_retired_def name_part_def strip_def isspace_def)
  have "rows_uid_values = [rows_uid_values ! 0, rows_uid_values ! 1]"
    by (simp add: rows_uid_values_def)
  with p1 p2 have "parse_rows column_names [row_soft_hyphen, row_retired] = Inr rows_uid_values"
    by simp
  then show ?thesis
    unfolding parse_docbook_table_def i
    by (simp add: table_el_def caption_el_def find_el_def r)
qed

lemma tables_no_match:
  "iter (br @ ''table'') doc_no_match = [table_el ''Registry of DICOM Data Elements'' [row_four_cells]]"
  by (simp add: doc_no_match_def book_def iter_def table_el_def caption_el_def br_def
       row_four_cells_def table_row_def cell_def para_cell_def)

subsection \<open>C5: the normalisation pass\<close>

text \<open>
  C5: the records extracted from the table all pass the normalisation loop, which
  replaces every \<^verbatim>\<open>&\<close> of the name by \<^verbatim>\<open>and\<close>, removes every U+00AD from the value
  and leaves the type, info and retired fields as they are; what the script writes is
  the serialisation of the normalised records.
\<close>

theorem normalization_pass:
  assumes "parse_docbook_table root (lit ''UID Values'') = Inr (Some rows)"
  shows "\<exists>attrs. normalize_loop rows = Inr attrs \<and> length attrs = length rows \<and>
           (\<forall>i < length rows. \<exists>n v.
              (rows ! i) ''UID Name'' = Some n \<and> (rows ! i) ''UID Value'' = Some v \<and>
              (attrs ! i) ''UID Name'' = Some (amp_to_and n) \<and>
              (attrs ! i) ''UID Value'' = Some (drop_soft_hyphens v) \<and>
              (attrs ! i) ''UID Type'' = (rows ! i) ''UID Type'' \<and>
              (attrs ! i) ''UID Info'' = (rows ! i) ''UID Info'' \<and>
              (attrs ! i) ''Retired'' = (rows ! i) ''Retired'') \<and>
           main script root f =
             (Inr (length rows), Some (fst (write_dict (header script) DICT_NAME attrs)))"
proof -
  from main_after_parse [OF assms, of script f] obtain attrs out
    where n: "normalize_loop rows = Inr attrs"
      and all: "list_all2 normalized rows attrs"
      and w: "write_dict (header script) DICT_NAME attrs = (out, None)"
      and m: "main script root f = (Inr (length rows), Some out)"
    by blast
  from all have len: "length attrs = length rows"
    by (simp add: list_all2_lengthD)
  from all have each: "\<forall>i < length rows. normalized (rows ! i) (attrs ! i)"
    by (simp add: list_all2_conv_all_nth)
  from m w have "main script root f =
      (Inr (length rows), Some (fst (write_dict (header script) DICT_NAME attrs)))"
    by simp
  moreover have "\<forall>i < length rows. \<exists>n v.
              (rows ! i) ''UID Name'' = Some n \<and> (rows ! i) ''UID Value'' = Some v \<and>
              (attrs ! i) ''UID Name'' = Some (amp_to_and n) \<and>
              (attrs ! i) ''UID Value'' = Some (drop_soft_hyphens v) \<and>
              (attrs ! i) ''UID Type'' = (rows ! i) ''UID Type'' \<and>
              (attrs ! i) ''UID Info'' = (rows ! i) ''UID Info'' \<and>
              (attrs ! i) ''Retired'' = (rows ! i) ''Retired''"
    using each unfolding normalized_def by blast
  ultimately show ?thesis
    using n len by blast
qed

theorem normalization_pass_witness:
  "\<exists>attrs. normalize_loop rows_uid_values = Inr attrs \<and>
     (attrs ! 0) ''UID Name'' = Some (lit ''A and B Storage'') \<and>
     (attrs ! 0) ''UID Value'' = Some (lit ''1.2.3'') \<and>
     (attrs ! 0) ''UID Type'' = Some (lit ''SOP Class'') \<and>
     fst (main (lit ''generate_uid_dict.py'') doc_uid_values None) = Inr 2"
proof -
  have r0: "(rows_uid_values ! 0) ''UID Name'' = Some (lit ''A & B Storage'')"
    "(rows_uid_values ! 0) ''UID Value'' = Some (lit ''1.2.'' @ [0xAD] @ lit ''3'')"
    "(rows_uid_values ! 0) ''UID Type'' = Some (lit ''SOP Class'')"
    by (simp_all add: rows_uid_values_def dict_of_column_names)
  have len: "length rows_uid_values = 2"
    by (simp add: rows_uid_values_def)
  from normalization_pass [OF parse_doc_uid_values, of "lit ''generate_uid_dict.py''" None]
  obtain attrs where n: "normalize_loop rows_uid_values = Inr attrs"
    and each: "\<forall>i < length rows_uid_values. \<exists>n v.
              (rows_uid_values ! i) ''UID Name'' = Some n \<and> (rows_uid_values ! i) ''UID Value'' = Some v \<and>
              (attrs ! i) ''UID Name'' = Some (amp_to_and n) \<and>
              (attrs ! i) ''UID Value'' = Some (drop_soft_hyphens v) \<and>
              (attrs ! i) ''UID Type'' = (rows_uid_values ! i) ''UID Type'' \<and>
              (attrs ! i) ''UID Info'' = (rows_uid_values ! i) ''UID Info'' \<and>
              (attrs ! i) ''Retired'' = (rows_uid_values ! i) ''Retired''"
    and m: "main (lit ''generate_uid_dict.py'') doc_uid_values None =
             (Inr (length rows_uid_values),
              Some (fst (write_dict (header (lit ''generate_uid_dict.py'')) DICT_NAME attrs)))"
    by blast
  have "0 < length rows_uid_values"
    using len by simp
  with each have "\<exists>n v.
              (rows_uid_values ! 0) ''UID Name'' = Some n \<and> (rows_uid_values ! 0) ''UID Value'' = Some v \<and>
              (attrs ! 0) ''UID Name'' = Some (amp_to_and n) \<and>
              (attrs ! 0) ''UID Value'' = Some (drop_soft_hyphens v) \<and>
              (attrs ! 0) ''UID Type'' = (rows_uid_values ! 0) ''UID Type''"
    by blast
  with r0 have "(attrs ! 0) ''UID Name'' = Some (amp_to_and (lit ''A & B Storage'')) \<and>
      (attrs ! 0) ''UID Value'' = Some (drop_soft_hyphens (lit ''1.2.'' @ [0xAD] @ lit ''3'')) \<and>
      (attrs ! 0) ''UID Type'' = Some (lit ''SOP Class'')"
    by auto
  then have "(attrs ! 0) ''UID Name'' = Some (lit ''A and B Storage'') \<and>
     (attrs ! 0) ''UID Value'' = Some (lit ''1.2.3'') \<and>
     (attrs ! 0) ''UID Type'' = Some (lit ''SOP Class'')"
    by (simp add: amp_to_and_def drop_soft_hyphens_def)
  with n m len show ?thesis
    by simp
qed

subsection \<open>C6: the layout written by write\_dict\<close>

text \<open>
  C6: for records that have the five keys, \<open>write_dict\<close> appends the opening line and
  then exactly one entry per record, formatted as
  \<^verbatim>\<open>'<value>': ('<name>', '<kind>', '<info>', '<retired>')\<close>, in the order of the list it
  is given, which is the order of the rows in the table: nothing is sorted.
\<close>

theorem write_dict_layout:
  assumes "\<forall>a \<in> set attrs. set column_names \<subseteq> dom a"
  shows "write_dict fp dict_name attrs =
           (fp @ [10] @ dict_name @ lit '' = {'' @ [10] @ entry_lines (map entry_of attrs) @
            lit ''}'' @ [10], None)"
proof (cases "attrs = []")
  case True
  then show ?thesis
    by (simp add: write_dict_def)
next
  case False
  then have "map entry_of attrs \<noteq> []" by simp
  from join_entry_lines [OF this] show ?thesis
    by (simp add: write_dict_def format_entries_keys [OF assms])
qed

theorem write_dict_layout_witness:
  "write_dict [] DICT_NAME [record_2, record_1] =
     ([10] @ lit ''UID_dictionary = {'' @ [10] @
      lit ''    '' @ entry_text (lit ''2'') (lit ''Second'') (lit ''SOP Class'') [] [] @
        lit '',  # noqa'' @ [10] @
      lit ''    '' @ entry_text (lit ''1'') (lit ''First'') (lit ''SOP Class'') (lit ''x'') (lit ''Retired'') @
        lit ''  # noqa'' @ [10] @
      lit ''}'' @ [10], None)"
proof -
  have k: "\<forall>a \<in> set [record_2, record_1]. set column_names \<subseteq> dom a"
    by (simp add: record_2_def record_1_def dom_dict_of_column_names)
  have e: "entry_of record_2 = entry_text (lit ''2'') (lit ''Second'') (lit ''SOP Class'') [] []"
    "entry_of record_1 = entry_text (lit ''1'') (lit ''First'') (lit ''SOP Class'') (lit ''x'') (lit ''Retired'')"
    by (simp_all add: entry_of_def record_2_def record_1_def dict_of_column_names)
  show ?thesis
    unfolding write_dict_layout [OF k]
    by (simp add: e DICT_NAME_def)
qed

subsection \<open>C7: no table with the caption\<close>

text \<open>
  C7: when no table of the document has a caption whose text is \<^verbatim>\<open>UID Values\<close>, the
  run ends in an error and the output file is what it was before the run: it is neither
  created nor emptied.
\<close>

theorem missing_table_is_fatal:
  assumes "\<forall>t \<in> set (iter (br @ ''table'') root).
             \<forall>c. find_el (br @ ''caption'') t = Some c \<longrightarrow> el_text c \<noteq> Some (lit ''UID Values'')"
  shows "snd (main script root f) = f \<and>
         (fst (main script root f) = Inl TypeError \<or>
          fst (main script root f) = Inl AttributeError)"
  using tables_loop_no_match [OF assms]
  by (auto simp: main_def parse_docbook_table_def)

theorem missing_table_is_fatal_witness:
  "main (lit ''generate_uid_dict.py'') doc_no_match (Some (lit ''old content'')) =
     (Inl TypeError, Some (lit ''old content'')) \<and>
   main (lit ''generate_uid_dict.py'') doc_no_match None = (Inl TypeError, None)"
proof -
  have h: "\<forall>t \<in> set (iter (br @ ''table'') doc_no_match).
             \<forall>c. find_el (br @ ''caption'') t = Some c \<longrightarrow> el_text c \<noteq> Some (lit ''UID Values'')"
    unfolding tables_no_match by (simp add: table_el_def caption_el_def find_el_def br_def)
  have e: "fst (main (lit ''generate_uid_dict.py'') doc_no_match py_file) = Inl TypeError" for py_file
    unfolding main_def parse_docbook_table_def tables_no_match
    by (simp add: table_el_def caption_el_def find_el_def br_def)
  from missing_table_is_fatal [OF h, of "lit ''generate_uid_dict.py''"] e show ?thesis
    by (simp add: prod_eq_iff)
qed

subsection \<open>C8: two runs on the same document\<close>

text \<open>
  C8: a second run on the same document, started on the file the first run left, ends
  with the same result and the same file; the result never depends on what the file held
  before, and the file after the run depends on it only when the run fails before opening
  the file, which then is left as it was.
\<close>

theorem main_deterministic:
  "main script root (snd (main script root f)) = main script root f \<and>
   fst (main script root f) = fst (main script root g) \<and>
   (snd (main script root f) = snd (main script root g) \<or>
    (snd (main script root f) = f \<and> snd (main script root g) = g))"
  by (simp add: main_def Let_def split: sum.splits option.splits prod.splits)

theorem main_deterministic_witness:
  "main (lit ''generate_uid_dict.py'') doc_uid_values
     (snd (main (lit ''generate_uid_dict.py'') doc_uid_values (Some (lit ''old content'')))) =
   main (lit ''generate_uid_dict.py'') doc_uid_values (Some (lit ''old content'')) \<and>
   snd (main (lit ''generate_uid_dict.py'') doc_uid_values (Some (lit ''old content''))) =
   snd (main (lit ''generate_uid_dict.py'') doc_uid_values None)"
proof -
  from main_after_parse [OF parse_doc_uid_values, of "lit ''generate_uid_dict.py''" None]
  have "snd (main (lit ''generate_uid_dict.py'') doc_uid_values None) \<noteq> None"
    by auto
  with main_deterministic [of "lit ''generate_uid_dict.py''" doc_uid_values
      "Some (lit ''old content'')" None]
  show ?thesis by auto
qed

subsection \<open>Facts about reading the generated text\<close>

declare parse_entries.simps [simp del]

lemma lex_run_append:
  "lex_run st (a @ b) = (case lex_run st a of Inl e \<Rightarrow> Inl e | Inr st1 \<Rightarrow> lex_run st1 b)"
  by (induction a arbitrary: st) (auto split: sum.splits)

lemma lex_run_plain:
  "plain s \<Longrightarrow> lex_run (Str acc, d, ts) (s @ rest) = lex_run (Str (acc @ s), d, ts) rest"
  by (induction s arbitrary: acc) (simp_all add: plain_def)

lemma lex_run_entry:
  assumes "plain v" "plain n" "plain k" "plain i" "plain r"
  shows "lex_run (Code, Suc d, ts) (entry_text v n k i r @ rest) =
         lex_run (Code, Suc d, ts @ entry_tokens (v, n, k, i, r)) rest"
  using assms
  by (simp add: entry_text_def lex_run_plain code_step_def entry_tokens_def is_name_start_def)

lemma lex_run_entry_string:
  "plain_entry e \<Longrightarrow>
   lex_run (Code, Suc d, ts) (entry_string e @ rest) =
   lex_run (Code, Suc d, ts @ entry_tokens e) rest"
  by (cases e) (simp add: plain_entry_def entry_string_def lex_run_entry)

lemma lex_run_joined:
  "list_all plain_entry es \<Longrightarrow>
   lex_run (Code, Suc d, ts)
     (join (lit '',  # noqa'' @ [10] @ lit ''    '') (map entry_string es) @ rest) =
   lex_run (Code, Suc d, ts @ joined_tokens es) rest"
proof (induction es arbitrary: ts rule: joined_tokens.induct)
  case 1
  then show ?case by simp
next
  case (2 e)
  then show ?case by (simp add: lex_run_entry_string)
next
  case (3 e e' es)
  from "3.prems" have e: "plain_entry e" and rest: "list_all plain_entry (e' # es)"
    by simp_all
  show ?case
    using "3.IH" [OF rest, of "ts @ entry_tokens e @ [COMMA]"]
    by (simp add: lex_run_entry_string [OF e] code_step_def)
qed

lemma tokenize_written:
  assumes "list_all plain_entry es"
  shows "tokenize ([10] @ DICT_NAME @ lit '' = {'' @ [10] @ lit ''    '' @
           join (lit '',  # noqa'' @ [10] @ lit ''    '') (map entry_string es) @
           lit ''  # noqa'' @ [10] @ lit ''}'' @ [10]) =
         Inr ([NAME DICT_NAME, EQUALS, LBRACE] @ joined_tokens es @ [RBRACE, NEWLINE])"
proof -
  have a: "lex_run (LineStart, 0, []) ([10] @ DICT_NAME @ lit '' = {'' @ [10] @ lit ''    '' @ x) =
      lex_run (Code, Suc 0, [NAME DICT_NAME, EQUALS, LBRACE]) x" for x
    by (simp add: DICT_NAME_def code_step_def is_name_start_def is_name_char_def)
  have b: "lex_run (Code, Suc 0, ts) (lit ''  # noqa'' @ [10] @ lit ''}'' @ [10]) =
      Inr (LineStart, 0, ts @ [RBRACE, NEWLINE])" for ts
    by (simp add: code_step_def is_name_start_def)
  show ?thesis
    unfolding tokenize_def a lex_run_joined [OF assms] b by simp
qed

lemma parse_entries_tokens:
  "parse_entries (entry_tokens e @ rest) =
     (case rest of
        COMMA # rest1 \<Rightarrow>
          (case parse_entries rest1 of Inl err \<Rightarrow> Inl err | Inr (es, rest2) \<Rightarrow> Inr (e # es, rest2))
      | RBRACE # rest1 \<Rightarrow> Inr ([e], rest1)
      | _ \<Rightarrow> Inl NotModelled)"
proof -
  obtain v n k i r where e: "e = (v, n, k, i, r)"
    by (cases e)
  show ?thesis
    unfolding e
    by (subst parse_entries.simps) (simp add: entry_tokens_def parse_entry_def)
qed

lemma parse_entries_joined:
  "parse_entries (joined_tokens es @ RBRACE # rest) = Inr (es, rest)"
proof (induction es rule: joined_tokens.induct)
  case 1
  then show ?case by (subst parse_entries.simps) simp
next
  case (2 e)
  then show ?case by (simp add: parse_entries_tokens)
next
  case (3 e e' es)
  then show ?case by (simp add: parse_entries_tokens)
qed

lemma foldl_update_map_of:
  "foldl (\<lambda>m (k, v). m(k \<mapsto> v)) m es = m ++ map_of (rev es)"
  by (induction es arbitrary: m) (auto simp: map_add_upd_left fun_eq_iff map_add_def split: option.splits)

lemma map_of_rev_distinct:
  "distinct (map fst es) \<Longrightarrow> map_of (rev es) = map_of es"
proof -
  assume d: "distinct (map fst es)"
  then have "distinct (map fst (rev es))"
    by (simp add: rev_map [symmetric])
  then show ?thesis
    using d by (simp add: map_of_inject_set)
qed

lemma plain_record_keys: "plain_record a \<Longrightarrow> set column_names \<subseteq> dom a"
  by (auto simp: plain_record_def column_names_def split: option.splits)

lemma plain_record_entry: "plain_record a \<Longrightarrow> plain_entry (record_entry a)"
  by (auto simp: plain_record_def column_names_def plain_entry_def record_entry_def
      split: option.splits)

lemma entry_of_string: "entry_of a = entry_string (record_entry a)"
  by (simp add: entry_of_def entry_string_def record_entry_def)

subsection \<open>C9: reading the output back\<close>

text \<open>
  C9 as stated: when no field holds a single quote and the values are unique, reading
  the serialized output back gives the mapping of the records keyed by value. A name
  that is two backslashes is written as \<^verbatim>\<open>'\\'\<close>, which Python reads as one
  backslash; a name with a line feed in it is written across two lines, which Python
  rejects.
\<close>

theorem read_back_counterexample:
  "quote_free_record record_backslash \<and> distinct (uid_values [record_backslash]) \<and>
   keyed_by_value [record_backslash] (lit ''1.2.3'') = Some ([92, 92], lit ''SOP Class'', [], []) \<and>
   looked_up (read_module (fst (write_dict [] DICT_NAME [record_backslash]))) (lit ''1.2.3'') =
     Inr (Some ([92], lit ''SOP Class'', [], [])) \<and>
   quote_free_record record_line_feed \<and> distinct (uid_values [record_line_feed]) \<and>
   read_module (fst (write_dict [] DICT_NAME [record_line_feed])) = Inl SyntaxError"
proof -
  have "quote_free_record record_backslash" "quote_free_record record_line_feed"
    by (simp_all add: quote_free_record_def record_backslash_def record_line_feed_def
        dict_of_column_names) (simp_all add: column_names_def)
  moreover have "keyed_by_value [record_backslash] (lit ''1.2.3'') =
      Some ([92, 92], lit ''SOP Class'', [], [])"
    by (simp add: record_backslash_def dict_of_column_names keyed_by_value_def record_entry_def)
  moreover have
    "looked_up (read_module (fst (write_dict [] DICT_NAME [record_backslash]))) (lit ''1.2.3'') =
       Inr (Some ([92], lit ''SOP Class'', [], []))"
    by (simp add: record_backslash_def dict_of_column_names looked_up_def read_module_def
        tokenize_def write_dict_def format_entry_def lookup_def quoted_def DICT_NAME_def
        code_step_def escape_step_def is_name_start_def is_name_char_def parse_entries.simps
        parse_entry_def py_keywords_def)
  moreover have "read_module (fst (write_dict [] DICT_NAME [record_line_feed])) = Inl SyntaxError"
    by (simp add: record_line_feed_def dict_of_column_names read_module_def
        tokenize_def write_dict_def format_entry_def lookup_def quoted_def DICT_NAME_def
        code_step_def is_name_start_def is_name_char_def)
  ultimately show ?thesis
    by (simp add: uid_values_def)
qed

text \<open>
  C9, amended: for every list of records that have the five fields, with no single quote,
  no backslash, no line feed and no carriage return in any field, and with unique values,
  reading the serialized output back gives the mapping that takes each record's value to
  its name, type, info and retired fields.
\<close>

theorem read_back_round_trip:
  assumes "list_all plain_record attrs"
    and "distinct (uid_values attrs)"
  shows "read_module (fst (write_dict [] DICT_NAME attrs)) = Inr (keyed_by_value attrs)"
proof -
  let ?es = "map record_entry attrs"
  have keys: "\<forall>a \<in> set attrs. set column_names \<subseteq> dom a"
    using assms(1) by (simp add: list_all_iff plain_record_keys)
  have pl: "list_all plain_entry ?es"
    using assms(1) by (simp add: list_all_iff plain_record_entry)
  have "map fst ?es = map (\<lambda>a. the (a ''UID Value'')) attrs"
    by (simp add: record_entry_def)
  then have d: "distinct (map fst ?es)"
    using assms(2) by (simp only: uid_values_def)
  have "entry_of = entry_string \<circ> record_entry"
    by (simp add: fun_eq_iff entry_of_string)
  then have w: "fst (write_dict [] DICT_NAME attrs) =
      [10] @ DICT_NAME @ lit '' = {'' @ [10] @ lit ''    '' @
      join (lit '',  # noqa'' @ [10] @ lit ''    '') (map entry_string ?es) @
      lit ''  # noqa'' @ [10] @ lit ''}'' @ [10]"
    by (simp add: write_dict_def format_entries_keys [OF keys])
  have "read_module (fst (write_dict [] DICT_NAME attrs)) =
      Inr (foldl (\<lambda>m (k, v). m(k \<mapsto> v)) Map.empty ?es)"
    unfolding w read_module_def tokenize_written [OF pl]
    by (simp add: parse_entries_joined) (simp add: py_keywords_def DICT_NAME_def)
  then show ?thesis
    by (simp add: foldl_update_map_of map_of_rev_distinct [OF d] keyed_by_value_def)
qed

theorem read_back_round_trip_witness:
  "list_all plain_record [record_2, record_a] \<and> distinct (uid_values [record_2, record_a]) \<and>
   looked_up (read_module (fst (write_dict [] DICT_NAME [record_2, record_a])))
     (lit ''1.2.840.10008.1.1'') =
     Inr (Some (lit ''Verification SOP Class'', lit ''SOP Class'', [], []))"
proof -
  have p: "list_all plain_record [record_2, record_a]"
    by (simp add: plain_record_def record_2_def record_a_def dict_of_column_names plain_def)
      (simp add: column_names_def)
  have d: "distinct (uid_values [record_2, record_a])"
    by (simp add: uid_values_def record_2_def record_a_def dict_of_column_names)
  have "keyed_by_value [record_2, record_a] (lit ''1.2.840.10008.1.1'') =
      Some (lit ''Verification SOP Class'', lit ''SOP Class'', [], [])"
    by (simp add: keyed_by_value_def record_entry_def record_2_def record_a_def dict_of_column_names)
  with read_back_round_trip [OF p d] p d show ?thesis
    by (simp add: looked_up_def)
qed

subsection \<open>C10: a table without a caption\<close>

text \<open>
  C10: if a table has no caption child and every table before it in document order has a
  caption with another text, the table locator raises \<open>AttributeError\<close> instead of
  skipping that table, whatever tables follow; the run then ends with that error and
  leaves the output file as it was.
\<close>

theorem missing_caption_raises:
  assumes "iter (br @ ''table'') root = earlier @ t # later"
    and "find_el (br @ ''caption'') t = None"
    and "\<forall>x \<in> set earlier. \<exists>c. find_el (br @ ''caption'') x = Some c \<and> el_text c \<noteq> Some caption"
  shows "parse_docbook_table root caption = Inl AttributeError \<and>
         (caption = lit ''UID Values'' \<longrightarrow> main script root f = (Inl AttributeError, f))"
  using tables_loop_missing_caption [OF assms(2,3), of later] assms(1)
  by (auto simp: parse_docbook_table_def main_def)

theorem missing_caption_raises_witness:
  "parse_docbook_table doc_no_caption (lit ''UID Values'') = Inl AttributeError \<and>
   main (lit ''generate_uid_dict.py'') doc_no_caption None = (Inl AttributeError, None)"
proof -
  have i: "iter (br @ ''table'') doc_no_caption =
      [] @ Element (br @ ''table'') None [Element (br @ ''tbody'') None [row_four_cells]] #
      [table_el ''UID Values'' [row_four_cells]]"
    by (simp add: doc_no_caption_def book_def iter_def table_el_def caption_el_def br_def
        row_four_cells_def table_row_def cell_def para_cell_def)
  have c: "find_el (br @ ''caption'')
      (Element (br @ ''table'') None [Element (br @ ''tbody'') None [row_four_cells]]) = None"
    by (simp add: find_el_def br_def)
  from missing_caption_raises [OF i c, of "lit ''UID Values''" "lit ''generate_uid_dict.py''" None]
  show ?thesis by simp
qed

end
